theory Spec2Isabelle
  imports Main "HOL-Library.Word"
begin

section \<open>Python values, exceptions and attribute reads\<close>

text \<open>
  A Python \<open>str\<close> is a sequence of Unicode code points, \<open>bytes\<close> a sequence of octets.
  \<open>None\<close> is the \<open>None\<close> of an option type.
\<close>

type_synonym ustr = "nat list"
type_synonym bytes = "8 word list"

definition u :: "string \<Rightarrow> ustr" where
  "u s = map of_char s"

text \<open>
  The exception classes that the program names or that its collaborators raise.
  \<open>UnicodeDecodeError\<close> and \<open>UnicodeEncodeError\<close> are subclasses of \<open>ValueError\<close>,
  \<open>FileNotFoundError\<close> of \<open>OSError\<close>; every class below except
  \<open>KeyboardInterrupt\<close> is a subclass of \<open>Exception\<close>.
\<close>

datatype py_exc =
    SystemError | ValueError | UnicodeDecodeError | UnicodeEncodeError | OverflowError
  | AttributeError | TypeError | OSError | FileNotFoundError | MemoryError
  | RuntimeError | ExternalClashError | KeyboardInterrupt

text \<open>\<^verbatim>\<open>except Exception\<close>\<close>

fun is_Exception :: "py_exc \<Rightarrow> bool" where
  "is_Exception KeyboardInterrupt = False"
| "is_Exception _ = True"

text \<open>\<^verbatim>\<open>except (SystemError, ValueError, UnicodeDecodeError, OverflowError)\<close>\<close>

fun is_field_error :: "py_exc \<Rightarrow> bool" where
  "is_field_error SystemError = True"
| "is_field_error ValueError = True"
| "is_field_error UnicodeDecodeError = True"
| "is_field_error UnicodeEncodeError = True"
| "is_field_error OverflowError = True"
| "is_field_error _ = False"

text \<open>
  Reading an attribute of an object of the archive library either raises or yields a value;
  an attribute that does not exist raises \<open>AttributeError\<close>.
\<close>

type_synonym 'a attr = "py_exc + 'a"

text \<open>\<^verbatim>\<open>getattr(obj, attr, default)\<close> and \<^verbatim>\<open>hasattr(obj, attr)\<close> catch \<open>AttributeError\<close> only.\<close>

definition getattr_default :: "'a attr \<Rightarrow> 'a \<Rightarrow> py_exc + 'a" where
  "getattr_default rd dflt =
     (case rd of
        Inr v \<Rightarrow> Inr v
      | Inl e \<Rightarrow> if e = AttributeError then Inr dflt else Inl e)"

definition hasattr :: "'a attr \<Rightarrow> py_exc + bool" where
  "hasattr rd =
     (case rd of
        Inr v \<Rightarrow> Inr True
      | Inl e \<Rightarrow> if e = AttributeError then Inr False else Inl e)"

section \<open>The converter object, the output mailbox and the log\<close>

datatype log_level = DEBUG | INFO | WARNING | ERROR

datatype log_msg =
    FailedToReadAttribute string py_exc
  | MessageHasAttachments int
  | ReadBufferFailed ustr py_exc
  | GetDataFailed ustr py_exc
  | AttachmentDataEmpty ustr int
  | FoundAttachment ustr int
  | FailedToExtractAttachment int py_exc
  | FailedToExtractAttachments py_exc
  | FailedToReadRecipients py_exc
  | FailedToConvertMessage py_exc
  | ProcessingMessages
  | ProcessedEmails int
  | FailedToProcessMessage int py_exc
  | FinishedProcessing int
  | FailedToProcessMessages py_exc
  | StartingConversion
  | OpenedPstFile
  | ConversionCompleted
  | ConversionFailed py_exc

text \<open>The MIME tree and the message object built from it.\<close>

datatype text_subtype = plain | html
datatype multipart_subtype = mixed | alternative

datatype mime =
    MIMEText ustr text_subtype
  | MIMEMultipart multipart_subtype "mime list"
  | MIMEBase_octet_stream bytes ustr

record email_message =
  payload :: mime
  headers :: "(string \<times> ustr) list"
  unixfrom :: "ustr option"

datatype event =
    Log log_level log_msg
  | MboxLock
  | MboxAdd email_message
  | MboxFlush
  | MboxUnlock
  | MboxClose

text \<open>
  The fields of \<open>PSTToMboxConverter\<close> that change during a run, together with the
  output mailbox the run writes to (the records it holds and whether it is locked) and
  the sequence of calls made to the logger and to the mailbox, in the order they happen.
\<close>

record converter =
  processed_emails :: int
  failed_emails :: int
  processed_folders :: int
  total_size :: int
  attachments_found :: int
  attachments_extracted :: int
  attachment_bytes :: int
  mbox_records :: "email_message list"
  mbox_locked :: bool
  trace :: "event list"

text \<open>\<^verbatim>\<open>__init__\<close>, with a mailbox file holding the records \<open>old\<close>.\<close>

definition init_converter :: "email_message list \<Rightarrow> converter" where
  "init_converter old =
     \<lparr> processed_emails = 0, failed_emails = 0, processed_folders = 0, total_size = 0,
       attachments_found = 0, attachments_extracted = 0, attachment_bytes = 0,
       mbox_records = old, mbox_locked = False, trace = [] \<rparr>"

definition emit :: "event \<Rightarrow> converter \<Rightarrow> converter" where
  "emit ev s = s\<lparr>trace := trace s @ [ev]\<rparr>"

definition logger :: "log_level \<Rightarrow> log_msg \<Rightarrow> converter \<Rightarrow> converter" where
  "logger lvl msg s = emit (Log lvl msg) s"

text \<open>
  A method either returns a value or raises, and in both cases leaves a new state of the
  converter behind.
\<close>

type_synonym 'a action = "converter \<Rightarrow> (py_exc + 'a) \<times> converter"

definition returnM :: "'a \<Rightarrow> 'a action" where
  "returnM x s = (Inr x, s)"

definition raiseM :: "py_exc \<Rightarrow> 'a action" where
  "raiseM e s = (Inl e, s)"

definition liftM :: "py_exc + 'a \<Rightarrow> 'a action" where
  "liftM r s = (r, s)"

definition bindM :: "'a action \<Rightarrow> ('a \<Rightarrow> 'b action) \<Rightarrow> 'b action" where
  "bindM m f s = (case m s of (Inl e, s') \<Rightarrow> (Inl e, s') | (Inr x, s') \<Rightarrow> f x s')"

definition doM :: "(converter \<Rightarrow> converter) \<Rightarrow> unit action" where
  "doM f s = (Inr (), f s)"

section \<open>Safe field accessor\<close>

text \<open>
  \<^verbatim>\<open>safe_get_attr(obj, attr, default)\<close>: \<open>rd\<close> is what reading \<open>obj.attr\<close> does.
\<close>

definition safe_get_attr :: "string \<Rightarrow> 'a option attr \<Rightarrow> 'a option \<Rightarrow> 'a option action" where
  "safe_get_attr attr rd dflt s =
     (case getattr_default rd dflt of
        Inr v \<Rightarrow> (Inr (if v \<noteq> None then v else dflt), s)
      | Inl e \<Rightarrow>
          if is_field_error e
          then (Inr dflt, logger DEBUG (FailedToReadAttribute attr e) s)
          else (Inl e, s))"

section \<open>Strings\<close>

text \<open>
  \<^verbatim>\<open>str.isspace\<close> on one code point; the regular expression class \<^verbatim>\<open>\s\<close> on a \<open>str\<close>
  pattern matches the same code points.
\<close>

definition py_isspace :: "nat \<Rightarrow> bool" where
  "py_isspace c =
     ((9 \<le> c \<and> c \<le> 13) \<or> (28 \<le> c \<and> c \<le> 32) \<or> c = 133 \<or> c = 160 \<or> c = 5760 \<or>
      (8192 \<le> c \<and> c \<le> 8202) \<or> c = 8232 \<or> c = 8233 \<or> c = 8239 \<or> c = 8287 \<or> c = 12288)"

text \<open>\<^verbatim>\<open>s.strip()\<close> and \<^verbatim>\<open>s.strip(chars)\<close>\<close>

definition strip_with :: "(nat \<Rightarrow> bool) \<Rightarrow> ustr \<Rightarrow> ustr" where
  "strip_with p s = rev (dropWhile p (rev (dropWhile p s)))"

definition strip :: "ustr \<Rightarrow> ustr" where
  "strip s = strip_with py_isspace s"

definition strip_chars :: "ustr \<Rightarrow> ustr \<Rightarrow> ustr" where
  "strip_chars chars s = strip_with (\<lambda>c. c \<in> set chars) s"

text \<open>\<^verbatim>\<open>s.encode('ascii')\<close> succeeds exactly when every code point is below 128.\<close>

definition is_ascii :: "ustr \<Rightarrow> bool" where
  "is_ascii s = list_all (\<lambda>c. c < 128) s"

text \<open>Truth value of a string or \<open>None\<close>, and \<^verbatim>\<open>value or default\<close>.\<close>

definition truthy :: "'a list option \<Rightarrow> bool" where
  "truthy v = (case v of None \<Rightarrow> False | Some x \<Rightarrow> x \<noteq> [])"

definition or_str :: "'a list option \<Rightarrow> 'a list \<Rightarrow> 'a list" where
  "or_str v d = (case v of None \<Rightarrow> d | Some x \<Rightarrow> if x \<noteq> [] then x else d)"

definition or_int :: "int option \<Rightarrow> int \<Rightarrow> int" where
  "or_int v d = (case v of None \<Rightarrow> d | Some x \<Rightarrow> if x \<noteq> 0 then x else d)"

text \<open>The decimal digits of a number, as \<^verbatim>\<open>f"{i}"\<close> prints them.\<close>

fun str_nat :: "nat \<Rightarrow> ustr" where
  "str_nat n = (if n < 10 then [48 + n] else str_nat (n div 10) @ [48 + n mod 10])"

declare str_nat.simps [simp del]

section \<open>Address formatter\<close>

text \<open>
  \<^verbatim>\<open>format_email_address(address, name)\<close>. \<open>Header_encode\<close> stands for the library call
  \<^verbatim>\<open>Header(name, 'utf-8').encode()\<close>, which renders a string as RFC 2047 encoded-words.
\<close>

definition format_email_address :: "(ustr \<Rightarrow> ustr) \<Rightarrow> ustr option \<Rightarrow> ustr option \<Rightarrow> ustr" where
  "format_email_address Header_encode address name =
     (case address of
        None \<Rightarrow> []
      | Some a \<Rightarrow>
          if a = [] then []
          else if truthy name \<and> strip (or_str name []) \<noteq> [] then
            (if is_ascii (or_str name [])
             then or_str name [] @ u '' <'' @ a @ u ''>''
             else Header_encode (or_str name []) @ u '' <'' @ a @ u ''>'')
          else a)"

section \<open>Source messages\<close>

text \<open>
  The objects of the archive library, seen through the attributes and methods the
  program uses. A method the object does not have is \<open>None\<close>.
\<close>

record pst_attachment =
  attachment_name :: "ustr option attr"
  attachment_size :: "int option attr"
  read_buffer :: "(int \<Rightarrow> py_exc + bytes option) option"
  get_data :: "(py_exc + bytes option) option"
  attachment_data :: "bytes option attr"

record pst_recipient =
  email_address :: "ustr option attr"
  recipient_name :: "ustr option attr"

record pst_folder =
  folder_name :: "ustr option attr"

record 'dt pst_message =
  plain_text_body :: "ustr option attr"
  html_body :: "ustr option attr"
  subject :: "ustr option attr"
  sender_name :: "ustr option attr"
  sender_email_address :: "ustr option attr"
  transport_headers :: "ustr option attr"
  delivery_time :: "'dt option attr"
  recipients :: "pst_recipient list option attr"
  number_of_attachments :: "int attr"
  get_attachment :: "nat \<Rightarrow> py_exc + pst_attachment option"
  folder :: "pst_folder option attr"

section \<open>Attachment extractor\<close>

record att_info =
  filename :: ustr
  reported_size :: int
  data :: "bytes option"

definition default_filename :: "nat \<Rightarrow> ustr" where
  "default_filename i = u ''attachment_'' @ str_nat i"

text \<open>Method 1: \<^verbatim>\<open>read_buffer(size)\<close>, when the object has it and the size is positive.\<close>

definition try_read_buffer :: "pst_attachment \<Rightarrow> ustr \<Rightarrow> int \<Rightarrow> bytes option action" where
  "try_read_buffer attachment fname sz s =
     (case read_buffer attachment of
        None \<Rightarrow> (Inr None, s)
      | Some rb \<Rightarrow>
          if sz > 0 then
            (case rb sz of
               Inr d \<Rightarrow> (Inr d, s)
             | Inl e \<Rightarrow>
                 if is_Exception e then (Inr None, logger DEBUG (ReadBufferFailed fname e) s)
                 else (Inl e, s))
          else (Inr None, s))"

text \<open>Method 2: \<^verbatim>\<open>get_data()\<close>, when there is still no data and the object has it.\<close>

definition try_get_data :: "pst_attachment \<Rightarrow> ustr \<Rightarrow> bytes option \<Rightarrow> bytes option action" where
  "try_get_data attachment fname d0 s =
     (if d0 = None then
        (case get_data attachment of
           None \<Rightarrow> (Inr d0, s)
         | Some gd \<Rightarrow>
             (case gd of
                Inr d \<Rightarrow> (Inr d, s)
              | Inl e \<Rightarrow>
                  if is_Exception e then (Inr d0, logger DEBUG (GetDataFailed fname e) s)
                  else (Inl e, s)))
      else (Inr d0, s))"

text \<open>Method 3: the \<open>data\<close> attribute, when there is still no data.\<close>

definition try_data_attr :: "pst_attachment \<Rightarrow> bytes option \<Rightarrow> bytes option action" where
  "try_data_attr attachment d0 =
     (if d0 = None then safe_get_attr ''data'' (attachment_data attachment) None
      else returnM d0)"

text \<open>\<^verbatim>\<open>len(data) if data else 0\<close>\<close>

definition actual_size_of :: "bytes option \<Rightarrow> int" where
  "actual_size_of d = (case d of None \<Rightarrow> 0 | Some b \<Rightarrow> if b \<noteq> [] then int (length b) else 0)"

text \<open>The counting at the end of the loop body.\<close>

definition count_attachment :: "ustr \<Rightarrow> int \<Rightarrow> int \<Rightarrow> converter \<Rightarrow> converter" where
  "count_attachment fname sz actual_size s =
     (if actual_size = 0 \<and> sz > 0 then logger WARNING (AttachmentDataEmpty fname sz) s
      else logger DEBUG (FoundAttachment fname actual_size)
             (s\<lparr>attachments_extracted := attachments_extracted s + 1,
                attachment_bytes := attachment_bytes s + actual_size\<rparr>))"

text \<open>The body of the loop over the attachment indices, inside its \<^verbatim>\<open>try\<close>.\<close>

definition extract_attachment ::
  "'dt pst_message \<Rightarrow> nat \<Rightarrow> att_info list \<Rightarrow> att_info list action" where
  "extract_attachment pst_message i attachments =
     bindM (liftM (get_attachment pst_message i)) (\<lambda>attachment.
       case attachment of
         None \<Rightarrow> returnM attachments
       | Some a \<Rightarrow>
           bindM (safe_get_attr ''name'' (attachment_name a) (Some (default_filename i))) (\<lambda>n.
           bindM (safe_get_attr ''size'' (attachment_size a) (Some 0)) (\<lambda>z.
           bindM (try_read_buffer a (or_str n (default_filename i)) (or_int z 0)) (\<lambda>d1.
           bindM (try_get_data a (or_str n (default_filename i)) d1) (\<lambda>d2.
           bindM (try_data_attr a d2) (\<lambda>d.
           bindM (doM (count_attachment (or_str n (default_filename i)) (or_int z 0)
                         (actual_size_of d))) (\<lambda>_.
           returnM (attachments @
             [\<lparr>filename = or_str n (default_filename i), reported_size = or_int z 0,
               data = d\<rparr>]))))))))"

text \<open>
  The loop \<^verbatim>\<open>for i in range(attachment_count)\<close>: an error of the four caught classes
  skips the index, any other exception leaves the loop with the list built so far.
\<close>

fun extract_loop ::
  "'dt pst_message \<Rightarrow> nat list \<Rightarrow> att_info list \<Rightarrow> converter
     \<Rightarrow> (py_exc option \<times> att_info list) \<times> converter" where
  "extract_loop pst_message [] attachments s = ((None, attachments), s)"
| "extract_loop pst_message (i # rest) attachments s =
     (case extract_attachment pst_message i attachments s of
        (Inr attachments', s') \<Rightarrow> extract_loop pst_message rest attachments' s'
      | (Inl e, s') \<Rightarrow>
          if is_field_error e
          then extract_loop pst_message rest attachments
                 (logger WARNING (FailedToExtractAttachment (int i) e) s')
          else ((Some e, attachments), s'))"

text \<open>The outer \<^verbatim>\<open>except Exception\<close> of \<open>extract_attachments\<close>.\<close>

definition extract_failed :: "py_exc \<Rightarrow> att_info list \<Rightarrow> att_info list action" where
  "extract_failed e attachments s =
     (if is_Exception e then (Inr attachments, logger WARNING (FailedToExtractAttachments e) s)
      else (Inl e, s))"

definition extract_attachments :: "'dt pst_message \<Rightarrow> att_info list action" where
  "extract_attachments pst_message s =
     (case hasattr (number_of_attachments pst_message) of
        Inl e \<Rightarrow> extract_failed e [] s
      | Inr False \<Rightarrow> (Inr [], s)
      | Inr True \<Rightarrow>
          (case number_of_attachments pst_message of
             Inl e \<Rightarrow> extract_failed e [] s
           | Inr attachment_count \<Rightarrow>
               (case extract_loop pst_message [0..<nat attachment_count] []
                       (if attachment_count > 0
                        then (logger DEBUG (MessageHasAttachments attachment_count) s)
                               \<lparr>attachments_found := attachments_found s + attachment_count\<rparr>
                        else s) of
                  ((None, attachments), s') \<Rightarrow> (Inr attachments, s')
                | ((Some e, attachments), s') \<Rightarrow> extract_failed e attachments s')))"

section \<open>Header recovery\<close>

text \<open>
  The two regular expressions of the program, searched with
  \<^verbatim>\<open>re.MULTILINE | re.IGNORECASE\<close>, as backtracking matchers: each function tries the
  alternatives of one pattern element in the order the \<open>re\<close> module tries them and
  hands the rest of the text to the rest of the pattern.
\<close>

definition to_lower :: "nat \<Rightarrow> nat" where
  "to_lower c = (if 65 \<le> c \<and> c \<le> 90 then c + 32 else c)"

text \<open>
  A literal, ignoring case. The literals of the two patterns are \<^verbatim>\<open>From:\<close> and
  \<^verbatim>\<open>Date:\<close>, whose letters have no case variants outside ASCII.
\<close>

fun match_literal :: "ustr \<Rightarrow> ustr \<Rightarrow> ustr option" where
  "match_literal [] s = Some s"
| "match_literal (p # ps) [] = None"
| "match_literal (p # ps) (c # cs) =
     (if to_lower c = to_lower p then match_literal ps cs else None)"

text \<open>\<^verbatim>\<open>\s*\<close>, greedy: the longest run of white space first, then shorter ones.\<close>

fun ws_star :: "(ustr \<Rightarrow> 'a option) \<Rightarrow> ustr \<Rightarrow> 'a option" where
  "ws_star k [] = k []"
| "ws_star k (c # cs) =
     (if py_isspace c
      then (case ws_star k cs of Some r \<Rightarrow> Some r | None \<Rightarrow> k (c # cs))
      else k (c # cs))"

text \<open>
  \<^verbatim>\<open>(.+?)\<close>, lazy: one character that is not a newline, then as few more as the rest of
  the pattern allows. \<open>acc\<close> is the group matched so far.
\<close>

fun dot_plus_lazy :: "(ustr \<Rightarrow> ustr \<Rightarrow> 'a option) \<Rightarrow> ustr \<Rightarrow> ustr \<Rightarrow> 'a option" where
  "dot_plus_lazy k acc [] = (if acc = [] then None else k acc [])"
| "dot_plus_lazy k acc (c # cs) =
     (case (if acc = [] then None else k acc (c # cs)) of
        Some r \<Rightarrow> Some r
      | None \<Rightarrow> if c = 10 then None else dot_plus_lazy k (acc @ [c]) cs)"

text \<open>A single literal character.\<close>

definition match_char :: "nat \<Rightarrow> (ustr \<Rightarrow> 'a option) \<Rightarrow> ustr \<Rightarrow> 'a option" where
  "match_char p k s = (case s of [] \<Rightarrow> None | c # cs \<Rightarrow> if c = p then k cs else None)"

text \<open>\<^verbatim>\<open>From:\s*(.+?)\s*<(.+?)>\<close> at one position; the result is the two groups.\<close>

definition from_pattern :: "ustr \<Rightarrow> (ustr \<times> ustr) option" where
  "from_pattern s =
     (case match_literal (u ''From:'') s of
        None \<Rightarrow> None
      | Some r \<Rightarrow>
          ws_star (dot_plus_lazy (\<lambda>g1.
            ws_star (match_char 60 (dot_plus_lazy (\<lambda>g2.
              match_char 62 (\<lambda>_. Some (g1, g2))) []))) []) r)"

text \<open>\<^verbatim>\<open>Date:\s*(.+)\<close> at one position; the greedy group runs to the end of the line.\<close>

definition date_pattern :: "ustr \<Rightarrow> ustr option" where
  "date_pattern s =
     (case match_literal (u ''Date:'') s of
        None \<Rightarrow> None
      | Some r \<Rightarrow>
          ws_star (\<lambda>t. if takeWhile (\<lambda>c. c \<noteq> 10) t = [] then None
                       else Some (takeWhile (\<lambda>c. c \<noteq> 10) t)) r)"

text \<open>
  \<^verbatim>\<open>re.search\<close> of a pattern that starts with \<^verbatim>\<open>^\<close>: the first position, from the left,
  at the start of the text or just after a newline, where the pattern matches.
\<close>

fun search_lines :: "(ustr \<Rightarrow> 'a option) \<Rightarrow> bool \<Rightarrow> ustr \<Rightarrow> 'a option" where
  "search_lines p bol [] = (if bol then p [] else None)"
| "search_lines p bol (c # cs) =
     (case (if bol then p (c # cs) else None) of
        Some r \<Rightarrow> Some r
      | None \<Rightarrow> search_lines p (c = 10) cs)"

definition re_search :: "(ustr \<Rightarrow> 'a option) \<Rightarrow> ustr \<Rightarrow> 'a option" where
  "re_search p s = search_lines p True s"

text \<open>
  Sender: when the sender address is empty and there are transport headers, the groups of
  the first \<^verbatim>\<open>From:\<close> match, the name without surrounding double quotes.
\<close>

definition recover_sender ::
  "ustr option \<Rightarrow> ustr option \<Rightarrow> ustr option \<Rightarrow> ustr option \<times> ustr option" where
  "recover_sender sender_name' sender_email transport_headers' =
     (if \<not> truthy sender_email \<and> truthy transport_headers' then
        (case re_search from_pattern (or_str transport_headers' []) of
           Some (g1, g2) \<Rightarrow> (Some (strip_chars [34] g1), Some g2)
         | None \<Rightarrow> (sender_name', sender_email))
      else (sender_name', sender_email))"

text \<open>
  The functions of the standard library that the record builder calls and that are not
  modelled further: \<^verbatim>\<open>Header(name, 'utf-8').encode()\<close>, \<^verbatim>\<open>datetime.strftime\<close>,
  \<^verbatim>\<open>datetime.isoformat\<close>, \<^verbatim>\<open>email.utils.parsedate_to_datetime\<close>, \<^verbatim>\<open>datetime.now()\<close>
  and whether \<^verbatim>\<open>mailbox.mbox.add\<close> raises on a message. \<open>'dt\<close> is the type of time stamps.
\<close>

record 'dt pylib =
  Header_encode :: "ustr \<Rightarrow> ustr"
  strftime :: "'dt \<Rightarrow> string \<Rightarrow> py_exc + ustr"
  isoformat :: "'dt \<Rightarrow> ustr"
  parsedate_to_datetime :: "ustr \<Rightarrow> py_exc + 'dt"
  datetime_now :: "'dt"
  mbox_add_raises :: "email_message \<Rightarrow> py_exc option"

text \<open>
  Date: when there is no delivery time and there are transport headers, the parsed value of
  the first \<^verbatim>\<open>Date:\<close> line, or \<open>None\<close> when parsing raises.
\<close>

definition recover_date ::
  "'dt pylib \<Rightarrow> 'dt option \<Rightarrow> ustr option \<Rightarrow> py_exc + 'dt option" where
  "recover_date lib delivery_time' transport_headers' =
     (if delivery_time' = None \<and> truthy transport_headers' then
        (case re_search date_pattern (or_str transport_headers' []) of
           Some g \<Rightarrow>
             (case parsedate_to_datetime lib (strip g) of
                Inr d \<Rightarrow> Inr (Some d)
              | Inl e \<Rightarrow> if is_Exception e then Inr None else Inl e)
         | None \<Rightarrow> Inr delivery_time')
      else Inr delivery_time')"

text \<open>\<^verbatim>\<open>sep in s\<close>, and \<^verbatim>\<open>s.split(sep)[1]\<close> when it is.\<close>

fun contains :: "ustr \<Rightarrow> ustr \<Rightarrow> bool" where
  "contains sep [] = (sep = [])"
| "contains sep (c # cs) = (take (length sep) (c # cs) = sep \<or> contains sep cs)"

fun before_sep :: "ustr \<Rightarrow> ustr \<Rightarrow> ustr" where
  "before_sep sep [] = []"
| "before_sep sep (c # cs) =
     (if take (length sep) (c # cs) = sep then [] else c # before_sep sep cs)"

fun after_sep :: "ustr \<Rightarrow> ustr \<Rightarrow> ustr" where
  "after_sep sep [] = []"
| "after_sep sep (c # cs) =
     (if take (length sep) (c # cs) = sep then drop (length sep) (c # cs)
      else after_sep sep cs)"

definition recover_message_id :: "ustr option \<Rightarrow> ustr option" where
  "recover_message_id transport_headers' =
     (if truthy transport_headers' \<and> contains (u ''Message-ID:'') (or_str transport_headers' [])
      then Some (strip (takeWhile (\<lambda>c. c \<noteq> 10)
             (before_sep (u ''Message-ID:'')
                (after_sep (u ''Message-ID:'') (or_str transport_headers' [])))))
      else None)"

section \<open>Record builder\<close>

text \<open>The MIME structure, chosen from the attachments and the two bodies.\<close>

definition body_part :: "ustr \<Rightarrow> ustr \<Rightarrow> mime" where
  "body_part body_text body_html =
     (if body_html \<noteq> [] \<and> body_text \<noteq> [] then
        MIMEMultipart alternative [MIMEText body_text plain, MIMEText body_html html]
      else if body_html \<noteq> [] then MIMEText body_html html
      else MIMEText (if body_text \<noteq> [] then body_text else u ''(No content)'') plain)"

definition attachment_part :: "att_info \<Rightarrow> mime" where
  "attachment_part att =
     MIMEBase_octet_stream (or_str (data att) [])
       (u ''attachment; filename='' @ [34] @ filename att @ [34])"

definition build_payload :: "att_info list \<Rightarrow> ustr \<Rightarrow> ustr \<Rightarrow> mime" where
  "build_payload attachments body_text body_html =
     (if attachments \<noteq> [] then
        MIMEMultipart mixed
          (body_part body_text body_html #
           map attachment_part (filter (\<lambda>att. truthy (data att)) attachments))
      else if body_html \<noteq> [] \<and> body_text \<noteq> [] then
        MIMEMultipart alternative [MIMEText body_text plain, MIMEText body_html html]
      else if body_html \<noteq> [] then MIMEText body_html html
      else MIMEText (if body_text \<noteq> [] then body_text else u ''(No content)'') plain)"

text \<open>\<^verbatim>\<open>msg[name] = value\<close> appends a header.\<close>

definition add_header :: "string \<Rightarrow> ustr \<Rightarrow> email_message \<Rightarrow> email_message" where
  "add_header name v msg = msg\<lparr>headers := headers msg @ [(name, v)]\<rparr>"

text \<open>The \<open>From\<close> header and the envelope line, set only when there is a sender address.\<close>

definition set_sender ::
  "'dt pylib \<Rightarrow> 'dt pst_message \<Rightarrow> ustr option \<Rightarrow> ustr option \<Rightarrow> ustr option
     \<Rightarrow> email_message \<Rightarrow> email_message action" where
  "set_sender lib pst_message sender_name' sender_email transport_headers' msg =
     (if truthy sender_email then
        bindM (safe_get_attr ''delivery_time'' (delivery_time pst_message) None) (\<lambda>dt0.
        bindM (liftM (recover_date lib dt0 transport_headers')) (\<lambda>dt.
        bindM (liftM (strftime lib (case dt of Some d \<Rightarrow> d | None \<Rightarrow> datetime_now lib)
                        ''%a %b %d %H:%M:%S %Y'')) (\<lambda>unix_date.
        returnM
          ((add_header ''From''
              (format_email_address (Header_encode lib) sender_email sender_name') msg)
           \<lparr>unixfrom := Some (u ''From '' @ or_str sender_email [] @ u '' '' @ unix_date)\<rparr>))))
      else returnM msg)"

text \<open>The loop over the recipients; it stops at the first exception.\<close>

fun recipients_loop ::
  "'dt pylib \<Rightarrow> pst_recipient list \<Rightarrow> ustr list \<Rightarrow> converter
     \<Rightarrow> (py_exc option \<times> ustr list) \<times> converter" where
  "recipients_loop lib [] acc s = ((None, acc), s)"
| "recipients_loop lib (recipient # rest) acc s =
     (case safe_get_attr ''email_address'' (email_address recipient) (Some []) s of
        (Inl e, s') \<Rightarrow> ((Some e, acc), s')
      | (Inr addr, s') \<Rightarrow>
          (case safe_get_attr ''name'' (recipient_name recipient) (Some []) s' of
             (Inl e, s'') \<Rightarrow> ((Some e, acc), s'')
           | (Inr nm, s'') \<Rightarrow>
               recipients_loop lib rest
                 (if truthy addr
                  then acc @ [format_email_address (Header_encode lib) addr nm]
                  else acc) s''))"

definition recipients_failed :: "py_exc \<Rightarrow> ustr list \<Rightarrow> ustr list action" where
  "recipients_failed e acc s =
     (if is_field_error e then (Inr acc, logger DEBUG (FailedToReadRecipients e) s)
      else (Inl e, s))"

definition read_recipients :: "'dt pylib \<Rightarrow> 'dt pst_message \<Rightarrow> ustr list action" where
  "read_recipients lib pst_message s =
     (case hasattr (recipients pst_message) of
        Inl e \<Rightarrow> recipients_failed e [] s
      | Inr False \<Rightarrow> (Inr [], s)
      | Inr True \<Rightarrow>
          (case recipients pst_message of
             Inl e \<Rightarrow> recipients_failed e [] s
           | Inr rs \<Rightarrow>
               if truthy rs then
                 (case recipients_loop lib (or_str rs []) [] s of
                    ((None, acc), s') \<Rightarrow> (Inr acc, s')
                  | ((Some e, acc), s') \<Rightarrow> recipients_failed e acc s')
               else (Inr [], s)))"

text \<open>\<^verbatim>\<open>', '.join(recipients)\<close>\<close>

fun join :: "ustr \<Rightarrow> ustr list \<Rightarrow> ustr" where
  "join sep [] = []"
| "join sep [x] = x"
| "join sep (x # y # ys) = x @ sep @ join sep (y # ys)"

text \<open>The \<open>Date\<close> header.\<close>

definition date_header :: "'dt pylib \<Rightarrow> 'dt option \<Rightarrow> py_exc + ustr" where
  "date_header lib dt =
     (case dt of
        Some d \<Rightarrow>
          (case strftime lib d ''%a, %d %b %Y %H:%M:%S %z'' of
             Inr v \<Rightarrow> Inr v
           | Inl e \<Rightarrow> if is_Exception e then Inr (isoformat lib d) else Inl e)
      | None \<Rightarrow> strftime lib (datetime_now lib) ''%a, %d %b %Y %H:%M:%S %z'')"

text \<open>The body of \<open>convert_pst_message_to_email\<close>, inside its \<^verbatim>\<open>try\<close>.\<close>

definition build_message ::
  "'dt pylib \<Rightarrow> 'dt pst_message \<Rightarrow> ustr \<Rightarrow> email_message action" where
  "build_message lib pst_message folder_path =
     bindM (safe_get_attr ''plain_text_body'' (plain_text_body pst_message) (Some [])) (\<lambda>bt.
     bindM (safe_get_attr ''html_body'' (html_body pst_message) (Some [])) (\<lambda>bh.
     bindM (extract_attachments pst_message) (\<lambda>attachments.
     bindM (safe_get_attr ''subject'' (subject pst_message) (Some [])) (\<lambda>subj.
     bindM (safe_get_attr ''sender_name'' (sender_name pst_message) (Some [])) (\<lambda>sn.
     bindM (safe_get_attr ''sender_email_address'' (sender_email_address pst_message)
              (Some [])) (\<lambda>se.
     bindM (safe_get_attr ''transport_headers'' (transport_headers pst_message)
              (Some [])) (\<lambda>th.
     bindM (set_sender lib pst_message (fst (recover_sender sn se th))
              (snd (recover_sender sn se th)) th
              (add_header ''Subject'' (or_str subj (u ''(No Subject)''))
                 \<lparr>payload = build_payload attachments (or_str bt []) (or_str bh []),
                  headers = [], unixfrom = None\<rparr>)) (\<lambda>msg1.
     bindM (read_recipients lib pst_message) (\<lambda>rcpts.
     bindM (safe_get_attr ''delivery_time'' (delivery_time pst_message) None) (\<lambda>dt0.
     bindM (liftM (recover_date lib dt0 th)) (\<lambda>dt.
     bindM (liftM (date_header lib dt)) (\<lambda>date.
     returnM
       ((if folder_path \<noteq> [] then add_header ''X-Folder'' folder_path else id)
        ((case recover_message_id th of
            Some msg_id \<Rightarrow> add_header ''Message-ID'' msg_id
          | None \<Rightarrow> id)
         (add_header ''Date'' date
           ((if rcpts \<noteq> [] then add_header ''To'' (join (u '', '') rcpts) else id)
            msg1))))))))))))))))"

text \<open>\<^verbatim>\<open>except Exception as e: self.logger.error(...); raise\<close>\<close>

definition convert_pst_message_to_email ::
  "'dt pylib \<Rightarrow> 'dt pst_message \<Rightarrow> ustr \<Rightarrow> email_message action" where
  "convert_pst_message_to_email lib pst_message folder_path s =
     (case build_message lib pst_message folder_path s of
        (Inr msg, s') \<Rightarrow> (Inr msg, s')
      | (Inl e, s') \<Rightarrow>
          if is_Exception e then (Inl e, logger ERROR (FailedToConvertMessage e) s')
          else (Inl e, s'))"

section \<open>Conversion driver\<close>

text \<open>
  The source archive: the messages its generator yields, and the exception, if any, with
  which the generator ends after them.
\<close>

record 'dt pst_archive =
  messages :: "'dt pst_message list"
  messages_raises :: "py_exc option"

text \<open>The folder name of a message, \<^verbatim>\<open>"Unknown"\<close> when it cannot be read.\<close>

definition folder_failed :: "py_exc \<Rightarrow> ustr action" where
  "folder_failed e s = (if is_field_error e then (Inr (u ''Unknown''), s) else (Inl e, s))"

definition resolve_folder :: "'dt pst_message \<Rightarrow> ustr action" where
  "resolve_folder pst_message s =
     (case hasattr (folder pst_message) of
        Inl e \<Rightarrow> folder_failed e s
      | Inr False \<Rightarrow> (Inr (u ''Unknown''), s)
      | Inr True \<Rightarrow>
          (case folder pst_message of
             Inl e \<Rightarrow> folder_failed e s
           | Inr None \<Rightarrow> (Inr (u ''Unknown''), s)
           | Inr (Some f) \<Rightarrow>
               (case safe_get_attr ''name'' (folder_name f) (Some (u ''Unknown'')) s of
                  (Inl e, s') \<Rightarrow> folder_failed e s'
                | (Inr v, s') \<Rightarrow> (Inr (or_str v []), s'))))"

text \<open>\<^verbatim>\<open>mbox_file.add(email_msg)\<close>: the record is appended unless the call raises.\<close>

definition mbox_add :: "'dt pylib \<Rightarrow> email_message \<Rightarrow> unit action" where
  "mbox_add lib msg s =
     (case mbox_add_raises lib msg of
        Some e \<Rightarrow> (Inl e, emit (MboxAdd msg) s)
      | None \<Rightarrow> (Inr (), (emit (MboxAdd msg) s)\<lparr>mbox_records := mbox_records s @ [msg]\<rparr>))"

text \<open>The counting after a successful append, with the progress line every 100 messages.\<close>

definition count_processed :: "converter \<Rightarrow> converter" where
  "count_processed s =
     (if (processed_emails s + 1) mod 100 = 0
      then logger INFO (ProcessedEmails (processed_emails s + 1))
             (s\<lparr>processed_emails := processed_emails s + 1\<rparr>)
      else s\<lparr>processed_emails := processed_emails s + 1\<rparr>)"

text \<open>The body of the loop over the messages, inside its \<^verbatim>\<open>try\<close>.\<close>

definition process_message :: "'dt pylib \<Rightarrow> 'dt pst_message \<Rightarrow> unit action" where
  "process_message lib pst_message =
     bindM (resolve_folder pst_message) (\<lambda>folder_path.
     bindM (convert_pst_message_to_email lib pst_message folder_path) (\<lambda>email_msg.
     bindM (mbox_add lib email_msg) (\<lambda>_.
     doM count_processed)))"

text \<open>
  The loop \<^verbatim>\<open>for pst_message in pst_archive.messages()\<close> with its local counter
  \<open>message_count\<close>, which is incremented after a successful append only.
\<close>

fun messages_loop ::
  "'dt pylib \<Rightarrow> 'dt pst_message list \<Rightarrow> int \<Rightarrow> converter
     \<Rightarrow> (py_exc option \<times> int) \<times> converter" where
  "messages_loop lib [] message_count s = ((None, message_count), s)"
| "messages_loop lib (pst_message # rest) message_count s =
     (case process_message lib pst_message s of
        (Inr _, s') \<Rightarrow> messages_loop lib rest (message_count + 1) s'
      | (Inl e, s') \<Rightarrow>
          if is_Exception e
          then messages_loop lib rest message_count
                 (logger ERROR (FailedToProcessMessage message_count e)
                    (s'\<lparr>failed_emails := failed_emails s' + 1\<rparr>))
          else ((Some e, message_count), s'))"

text \<open>The outer \<^verbatim>\<open>except Exception\<close> of \<open>process_messages\<close>.\<close>

definition processing_failed :: "py_exc \<Rightarrow> unit action" where
  "processing_failed e s =
     (if is_Exception e then (Inr (), logger ERROR (FailedToProcessMessages e) s)
      else (Inl e, s))"

definition process_messages :: "'dt pylib \<Rightarrow> 'dt pst_archive \<Rightarrow> unit action" where
  "process_messages lib pst_archive s =
     (case messages_loop lib (messages pst_archive) 0 (logger INFO ProcessingMessages s) of
        ((Some e, message_count), s') \<Rightarrow> processing_failed e s'
      | ((None, message_count), s') \<Rightarrow>
          (case messages_raises pst_archive of
             Some e \<Rightarrow> processing_failed e s'
           | None \<Rightarrow> (Inr (), logger INFO (FinishedProcessing message_count) s')))"











section \<open>Notions used in the statements\<close>

text \<open>
  An extracted attachment is counted unless nothing was recovered although a positive size
  was reported.
\<close>

definition counted :: "att_info \<Rightarrow> bool" where
  "counted att = (\<not> (actual_size_of (data att) = 0 \<and> reported_size att > 0))"

text \<open>
  The events of a run that concern the lock and the final report: locking, unlocking, and
  the two log entries with which \<open>convert\<close> reports its outcome.
\<close>

fun run_event :: "event \<Rightarrow> bool" where
  "run_event MboxLock = True"
| "run_event MboxUnlock = True"
| "run_event (Log lvl ConversionCompleted) = True"
| "run_event (Log lvl (ConversionFailed e)) = True"
| "run_event _ = False"

text \<open>
  What building one message leaves alone: the two message counters, the mailbox, and the
  events of the lock and the report.
\<close>

definition frame :: "converter \<Rightarrow> converter \<Rightarrow> bool" where
  "frame s t \<longleftrightarrow>
     processed_emails t = processed_emails s \<and> failed_emails t = failed_emails s \<and>
     mbox_records t = mbox_records s \<and> mbox_locked t = mbox_locked s \<and>
     filter run_event (trace t) = filter run_event (trace s)"

text \<open>
  The attachment counters after recording the attachments \<open>new\<close>, not counting the
  update of \<open>attachments_found\<close> at the start of the extraction.
\<close>

definition att_counts :: "converter \<Rightarrow> converter \<Rightarrow> att_info list \<Rightarrow> bool" where
  "att_counts s t new \<longleftrightarrow>
     frame s t \<and>
     attachments_found t = attachments_found s \<and>
     attachments_extracted t = attachments_extracted s + int (length (filter counted new)) \<and>
     attachment_bytes t = attachment_bytes s + (\<Sum>a\<leftarrow>new. actual_size_of (data a))"

text \<open>No counter of the statistics is smaller in \<open>t\<close> than in \<open>s\<close>.\<close>

definition counters_le :: "converter \<Rightarrow> converter \<Rightarrow> bool" where
  "counters_le s t \<longleftrightarrow>
     processed_emails s \<le> processed_emails t \<and> failed_emails s \<le> failed_emails t \<and>
     attachments_found s \<le> attachments_found t \<and>
     attachments_extracted s \<le> attachments_extracted t \<and>
     attachment_bytes s \<le> attachment_bytes t"

text \<open>What building one message may do to the converter, and what a run may do.\<close>

definition build_step :: "converter \<Rightarrow> converter \<Rightarrow> bool" where
  "build_step s t \<longleftrightarrow> frame s t \<and> counters_le s t"

definition run_step :: "converter \<Rightarrow> converter \<Rightarrow> bool" where
  "run_step s t \<longleftrightarrow>
     counters_le s t \<and> mbox_locked t = mbox_locked s \<and>
     filter run_event (trace t) = filter run_event (trace s)"

text \<open>
  A message converts to the record \<open>r\<close>: from every state of the converter its folder is
  resolved, the record builder returns \<open>r\<close>, and the mailbox accepts it. A message fails
  to build: from every state the record builder raises an \<open>Exception\<close>.
\<close>

definition converts_to :: "'dt pylib \<Rightarrow> 'dt pst_message \<Rightarrow> email_message \<Rightarrow> bool" where
  "converts_to lib pst_message r \<longleftrightarrow>
     mbox_add_raises lib r = None \<and>
     (\<forall>s. \<exists>folder_path s' t.
        resolve_folder pst_message s = (Inr folder_path, s') \<and>
        convert_pst_message_to_email lib pst_message folder_path s' = (Inr r, t))"

definition fails_to_build :: "'dt pylib \<Rightarrow> 'dt pst_message \<Rightarrow> bool" where
  "fails_to_build lib pst_message \<longleftrightarrow>
     (\<forall>s. \<exists>folder_path s' e t.
        resolve_folder pst_message s = (Inr folder_path, s') \<and>
        convert_pst_message_to_email lib pst_message folder_path s' = (Inl e, t) \<and>
        is_Exception e)"

section \<open>Example inputs\<close>

definition demo_lib :: "nat pylib" where
  "demo_lib =
     \<lparr> Header_encode = (\<lambda>n. u ''=?utf-8?b?w6k=?=''),
       strftime = (\<lambda>d f. Inr (u ''Thu Jan 01 00:00:00 1970'')),
       isoformat = (\<lambda>d. u ''1970-01-01T00:00:00''),
       parsedate_to_datetime = (\<lambda>x. Inl ValueError),
       datetime_now = 0,
       mbox_add_raises = (\<lambda>msg. None) \<rparr>"

text \<open>An attachment of three bytes, read by \<^verbatim>\<open>read_buffer\<close>.\<close>

definition demo_attachment :: pst_attachment where
  "demo_attachment =
     \<lparr> attachment_name = Inr (Some (u ''a.bin'')), attachment_size = Inr (Some 3),
       read_buffer = Some (\<lambda>n. Inr (Some [1, 2, 3])), get_data = None,
       attachment_data = Inl AttributeError \<rparr>"

text \<open>An attachment that reports five bytes and gives none.\<close>

definition lost_attachment :: pst_attachment where
  "lost_attachment =
     \<lparr> attachment_name = Inr (Some (u ''b.bin'')), attachment_size = Inr (Some 5),
       read_buffer = Some (\<lambda>n. Inl OSError), get_data = Some (Inl OSError),
       attachment_data = Inr None \<rparr>"

text \<open>An attachment that reports the size 0 and has no data.\<close>

definition empty_attachment :: pst_attachment where
  "empty_attachment =
     \<lparr> attachment_name = Inr None, attachment_size = Inr (Some 0),
       read_buffer = None, get_data = None, attachment_data = Inr None \<rparr>"

text \<open>A message with both bodies and no attachment.\<close>

definition demo_message :: "nat pst_message" where
  "demo_message =
     \<lparr> plain_text_body = Inr (Some (u ''hi'')), html_body = Inr (Some (u ''<p>hi</p>'')),
       subject = Inr (Some (u ''Hello'')), sender_name = Inr None,
       sender_email_address = Inr None, transport_headers = Inr None,
       delivery_time = Inr None, recipients = Inr None,
       number_of_attachments = Inr 0, get_attachment = (\<lambda>i. Inl OSError),
       folder = Inr None \<rparr>"

text \<open>The record built from it in the folder \<^verbatim>\<open>"Unknown"\<close>.\<close>

definition demo_record :: email_message where
  "demo_record =
     \<lparr> payload = MIMEMultipart alternative
                   [MIMEText (u ''hi'') plain, MIMEText (u ''<p>hi</p>'') html],
       headers = [(''Subject'', u ''Hello''), (''Date'', u ''Thu Jan 01 00:00:00 1970''),
                  (''X-Folder'', u ''Unknown'')],
       unixfrom = None \<rparr>"

text \<open>The same message with the attachments \<open>atts\<close>.\<close>

definition with_attachments :: "pst_attachment list \<Rightarrow> nat pst_message" where
  "with_attachments atts =
     demo_message
       \<lparr> number_of_attachments := Inr (int (length atts)),
         get_attachment := (\<lambda>i. if i < length atts then Inr (Some (atts ! i)) else Inl OSError) \<rparr>"

text \<open>A message whose subject cannot be read, and one more with an attachment.\<close>

definition failing_message :: "nat pst_message" where
  "failing_message = demo_message\<lparr>subject := Inl OSError\<rparr>"




section \<open>Properties\<close>

subsection \<open>Auxiliary facts: what each step leaves unchanged\<close>

lemma logger_fields [simp]:
  "processed_emails (logger l m s) = processed_emails s"
  "failed_emails (logger l m s) = failed_emails s"
  "attachments_found (logger l m s) = attachments_found s"
  "attachments_extracted (logger l m s) = attachments_extracted s"
  "attachment_bytes (logger l m s) = attachment_bytes s"
  "mbox_records (logger l m s) = mbox_records s"
  "mbox_locked (logger l m s) = mbox_locked s"
  "trace (logger l m s) = trace s @ [Log l m]"
  by (simp_all add: logger_def emit_def)

lemma frame_refl [simp]: "frame s s"
  by (simp add: frame_def)

lemma frame_trans: "frame s t \<Longrightarrow> frame t r \<Longrightarrow> frame s r"
  by (simp add: frame_def)

lemma att_counts_logger [simp]:
  "\<not> run_event (Log l m) \<Longrightarrow> att_counts s (logger l m t) new = att_counts s t new"
  "\<not> run_event (Log l m) \<Longrightarrow> att_counts (logger l m s) t new = att_counts s t new"
  by (simp_all add: att_counts_def frame_def)

lemma att_counts_refl [simp]: "att_counts s s []"
  by (simp add: att_counts_def)

lemma att_counts_trans:
  "att_counts s t new \<Longrightarrow> att_counts t r new' \<Longrightarrow> att_counts s r (new @ new')"
  by (auto simp: att_counts_def intro: frame_trans)

lemma att_counts_trans0:
  "att_counts s t [] \<Longrightarrow> att_counts t r new \<Longrightarrow> att_counts s r new"
  using att_counts_trans [of s t "[]" r new] by simp

lemma safe_get_attr_att: "safe_get_attr a rd d s = (r, t) \<Longrightarrow> att_counts s t []"
  by (auto simp: safe_get_attr_def split: sum.splits if_splits)

lemma try_read_buffer_att: "try_read_buffer a f z s = (r, t) \<Longrightarrow> att_counts s t []"
  by (auto simp: try_read_buffer_def split: sum.splits if_splits option.splits)

lemma try_get_data_att: "try_get_data a f d s = (r, t) \<Longrightarrow> att_counts s t []"
  by (auto simp: try_get_data_def split: sum.splits if_splits option.splits)

lemma try_data_attr_att: "try_data_attr a d s = (r, t) \<Longrightarrow> att_counts s t []"
  by (auto simp: try_data_attr_def returnM_def dest: safe_get_attr_att split: if_splits)

lemma count_attachment_att:
  "att_counts s (count_attachment f z (actual_size_of d) s)
     [\<lparr>filename = f, reported_size = z, data = d\<rparr>]"
  by (simp add: count_attachment_def att_counts_def counted_def frame_def)

lemma bindM_cases:
  assumes "bindM m f s = (r, t)"
  obtains (raise) e where "m s = (Inl e, t)" "r = Inl e"
        | (ok) x s' where "m s = (Inr x, s')" "f x s' = (r, t)"
  using assms by (auto simp: bindM_def split: prod.splits sum.splits)

lemma bindM_att:
  assumes "bindM m f s = (r, t)"
    and "\<And>x s'. m s = (x, s') \<Longrightarrow> att_counts s s' []"
    and "\<And>x s'. f x s' = (r, t) \<Longrightarrow>
           \<exists>new. att_counts s' t new \<and>
             (case r of Inr a' \<Rightarrow> a' = atts @ new | Inl e \<Rightarrow> new = [])"
  shows "\<exists>new. att_counts s t new \<and>
           (case r of Inr a' \<Rightarrow> a' = atts @ new | Inl e \<Rightarrow> new = [])"
  using assms(1)
proof (cases rule: bindM_cases)
  case (raise e)
  with assms(2) show ?thesis by auto
next
  case (ok x s')
  from assms(3) [OF ok(2)] obtain new where
    "att_counts s' t new" "case r of Inr a' \<Rightarrow> a' = atts @ new | Inl e \<Rightarrow> new = []"
    by blast
  with assms(2) [OF ok(1)] show ?thesis
    by (blast intro: att_counts_trans0)
qed

lemma extract_attachment_att:
  assumes "extract_attachment m i atts s = (r, t)"
  shows "\<exists>new. att_counts s t new \<and>
           (case r of Inr atts' \<Rightarrow> atts' = atts @ new | Inl e \<Rightarrow> new = [])"
proof (cases "get_attachment m i")
  case (Inl e)
  with assms show ?thesis
    by (auto simp: extract_attachment_def bindM_def liftM_def)
next
  case (Inr h)
  show ?thesis
  proof (cases h)
    case None
    with assms Inr show ?thesis
      by (auto simp: extract_attachment_def bindM_def liftM_def returnM_def)
  next
    case (Some a)
    from assms Inr Some show ?thesis
      unfolding extract_attachment_def
      apply (simp add: bindM_def [of "liftM _"] liftM_def)
      apply (erule bindM_att, erule safe_get_attr_att)
      apply (erule bindM_att, erule safe_get_attr_att)
      apply (erule bindM_att, erule try_read_buffer_att)
      apply (erule bindM_att, erule try_get_data_att)
      apply (erule bindM_att, erule try_data_attr_att)
      apply (auto simp: bindM_def doM_def returnM_def intro: count_attachment_att)
      done
  qed
qed

lemma extract_loop_att:
  "extract_loop m is atts s = ((eo, atts'), t) \<Longrightarrow>
     \<exists>new. atts' = atts @ new \<and> att_counts s t new"
proof (induction "is" arbitrary: atts s)
  case Nil
  then show ?case by simp
next
  case (Cons i rest)
  obtain r s1 where step: "extract_attachment m i atts s = (r, s1)"
    by (cases "extract_attachment m i atts s")
  from extract_attachment_att [OF step] obtain new1 where
    n1: "att_counts s s1 new1"
      "case r of Inr atts' \<Rightarrow> atts' = atts @ new1 | Inl e \<Rightarrow> new1 = []"
    by blast
  show ?case
  proof (cases r)
    case (Inr atts1)
    with Cons.prems step have "extract_loop m rest atts1 s1 = ((eo, atts'), t)" by simp
    from Cons.IH [OF this] obtain new2 where "atts' = atts1 @ new2" "att_counts s1 t new2"
      by blast
    with n1 Inr show ?thesis
      by (auto intro!: exI [of _ "new1 @ new2"] att_counts_trans)
  next
    case (Inl e)
    show ?thesis
    proof (cases "is_field_error e")
      case True
      with Cons.prems step Inl have
        "extract_loop m rest atts (logger WARNING (FailedToExtractAttachment (int i) e) s1)
           = ((eo, atts'), t)" by simp
      from Cons.IH [OF this] obtain new2 where
        "atts' = atts @ new2"
        "att_counts (logger WARNING (FailedToExtractAttachment (int i) e) s1) t new2"
        by blast
      moreover have "att_counts s s1 []"
        using n1 Inl by simp
      ultimately show ?thesis
        using att_counts_trans0 [of s s1 t new2] by auto
    next
      case False
      with Cons.prems step Inl n1 show ?thesis by auto
    qed
  qed
qed

lemma counters_le_refl [simp]: "counters_le s s"
  by (simp add: counters_le_def)

lemma counters_le_trans: "counters_le s t \<Longrightarrow> counters_le t r \<Longrightarrow> counters_le s r"
  by (simp add: counters_le_def)

lemma build_step_refl [simp]: "build_step s s"
  by (simp add: build_step_def)

lemma build_step_trans: "build_step s t \<Longrightarrow> build_step t r \<Longrightarrow> build_step s r"
  by (auto simp: build_step_def intro: frame_trans counters_le_trans)

lemma build_step_logger [simp]:
  "\<not> run_event (Log l m) \<Longrightarrow> build_step s (logger l m t) = build_step s t"
  by (simp add: build_step_def frame_def counters_le_def)

lemma actual_size_of_nonneg: "0 \<le> actual_size_of d"
  by (simp add: actual_size_of_def split: option.splits)

lemma sum_sizes_nonneg: "0 \<le> (\<Sum>a\<leftarrow>new. actual_size_of (data a))"
  by (induction new) (simp_all add: actual_size_of_nonneg)

lemma att_counts_build_step: "att_counts s t new \<Longrightarrow> build_step s t"
  using sum_sizes_nonneg [of new]
  by (simp add: att_counts_def build_step_def counters_le_def frame_def)

lemma bindM_build:
  assumes "bindM m f s = (r, t)"
    and "\<And>x s'. m s = (x, s') \<Longrightarrow> build_step s s'"
    and "\<And>x s'. f x s' = (r, t) \<Longrightarrow> build_step s' t"
  shows "build_step s t"
  using assms(1)
proof (cases rule: bindM_cases)
  case (raise e)
  with assms(2) show ?thesis by auto
next
  case (ok x s')
  with assms(2) [OF ok(1)] assms(3) [OF ok(2)] show ?thesis
    by (blast intro: build_step_trans)
qed

lemma safe_get_attr_build: "safe_get_attr a rd d s = (r, t) \<Longrightarrow> build_step s t"
  by (blast dest: safe_get_attr_att att_counts_build_step)

lemma liftM_build: "liftM x s = (r, t) \<Longrightarrow> build_step s t"
  by (auto simp: liftM_def)

lemma returnM_build: "returnM x s = (r, t) \<Longrightarrow> build_step s t"
  by (auto simp: returnM_def)

lemma extract_attachments_build:
  assumes "extract_attachments m s = (r, t)"
  shows "build_step s t"
proof (cases "number_of_attachments m")
  case (Inl e)
  with assms show ?thesis
    by (auto simp: extract_attachments_def hasattr_def extract_failed_def split: if_splits)
next
  case (Inr n)
  let ?s0 = "if n > 0 then (logger DEBUG (MessageHasAttachments n) s)
               \<lparr>attachments_found := attachments_found s + n\<rparr> else s"
  obtain eo atts' s1 where loop: "extract_loop m [0..<nat n] [] ?s0 = ((eo, atts'), s1)"
    by (cases "extract_loop m [0..<nat n] [] ?s0") auto
  from extract_loop_att [OF loop] have "att_counts ?s0 s1 atts'" by simp
  then have "build_step ?s0 s1" by (rule att_counts_build_step)
  moreover have "build_step s ?s0"
    by (simp add: build_step_def frame_def counters_le_def)
  ultimately have "build_step s s1" by (blast intro: build_step_trans)
  with assms Inr loop show ?thesis
    by (auto simp: extract_attachments_def hasattr_def extract_failed_def
        split: option.splits if_splits)
qed

lemma set_sender_build:
  "set_sender lib m sn se th msg s = (r, t) \<Longrightarrow> build_step s t"
  unfolding set_sender_def
  apply (cases "truthy se")
   apply simp
   apply (erule bindM_build, erule safe_get_attr_build)
   apply (erule bindM_build, erule liftM_build)
   apply (erule bindM_build, erule liftM_build)
   apply (erule returnM_build)
  apply (simp add: returnM_def)
  done

lemma recipients_loop_build:
  "recipients_loop lib rs acc s = (r, t) \<Longrightarrow> build_step s t"
proof (induction rs arbitrary: acc s)
  case Nil
  then show ?case by auto
next
  case (Cons x rs)
  then show ?case
    by (auto split: prod.splits sum.splits dest!: safe_get_attr_build intro: build_step_trans)
qed

lemma read_recipients_build:
  "read_recipients lib m s = (r, t) \<Longrightarrow> build_step s t"
  by (auto simp: read_recipients_def hasattr_def recipients_failed_def
      split: sum.splits if_splits prod.splits option.splits bool.splits
      dest!: recipients_loop_build)

lemma build_message_build:
  "build_message lib m fp s = (r, t) \<Longrightarrow> build_step s t"
  unfolding build_message_def
  apply (erule bindM_build, erule safe_get_attr_build)
  apply (erule bindM_build, erule safe_get_attr_build)
  apply (erule bindM_build, erule extract_attachments_build)
  apply (erule bindM_build, erule safe_get_attr_build)
  apply (erule bindM_build, erule safe_get_attr_build)
  apply (erule bindM_build, erule safe_get_attr_build)
  apply (erule bindM_build, erule safe_get_attr_build)
  apply (erule bindM_build, erule set_sender_build)
  apply (erule bindM_build, erule read_recipients_build)
  apply (erule bindM_build, erule safe_get_attr_build)
  apply (erule bindM_build, erule liftM_build)
  apply (erule bindM_build, erule liftM_build)
  apply (erule returnM_build)
  done

lemma convert_pst_message_to_email_build:
  "convert_pst_message_to_email lib m fp s = (r, t) \<Longrightarrow> build_step s t"
  by (auto simp: convert_pst_message_to_email_def split: prod.splits sum.splits if_splits
      dest!: build_message_build)

lemma folder_failed_build: "folder_failed e s = (r, t) \<Longrightarrow> build_step s t"
  by (auto simp: folder_failed_def split: if_splits)

lemma resolve_folder_build:
  "resolve_folder m s = (r, t) \<Longrightarrow> build_step s t"
  by (auto simp: resolve_folder_def hasattr_def
      split: sum.splits if_splits prod.splits option.splits bool.splits
      dest!: safe_get_attr_build folder_failed_build intro: build_step_trans)

lemma run_step_refl [simp]: "run_step s s"
  by (simp add: run_step_def)


















lemma process_message_ok:
  assumes "converts_to lib m r"
  shows "\<exists>t. process_message lib m s = (Inr (), t) \<and>
           processed_emails t = processed_emails s + 1 \<and>
           failed_emails t = failed_emails s \<and>
           mbox_records t = mbox_records s @ [r]"
proof -
  from assms obtain fp s1 s2 where
    f: "resolve_folder m s = (Inr fp, s1)" and
    c: "convert_pst_message_to_email lib m fp s1 = (Inr r, s2)" and
    a: "mbox_add_raises lib r = None"
    unfolding converts_to_def by blast
  from f have "frame s s1" by (auto dest: resolve_folder_build simp: build_step_def)
  moreover from c have "frame s1 s2"
    by (auto dest: convert_pst_message_to_email_build simp: build_step_def)
  ultimately have "frame s s2" by (rule frame_trans)
  with f c a show ?thesis
    by (simp add: process_message_def bindM_def mbox_add_def doM_def emit_def
        count_processed_def frame_def)
qed

lemma process_message_fail:
  assumes "fails_to_build lib m"
  shows "\<exists>e t. process_message lib m s = (Inl e, t) \<and> is_Exception e \<and>
           processed_emails t = processed_emails s \<and>
           failed_emails t = failed_emails s \<and>
           mbox_records t = mbox_records s"
proof -
  from assms obtain fp s1 e s2 where
    f: "resolve_folder m s = (Inr fp, s1)" and
    c: "convert_pst_message_to_email lib m fp s1 = (Inl e, s2)" and
    e: "is_Exception e"
    unfolding fails_to_build_def by blast
  from f have "frame s s1" by (auto dest: resolve_folder_build simp: build_step_def)
  moreover from c have "frame s1 s2"
    by (auto dest: convert_pst_message_to_email_build simp: build_step_def)
  ultimately have "frame s s2" by (rule frame_trans)
  with f c e show ?thesis
    by (simp add: process_message_def bindM_def frame_def)
qed

lemma messages_loop_ok:
  "list_all2 (converts_to lib) ms rs \<Longrightarrow>
     \<exists>t. messages_loop lib ms c s = ((None, c + int (length ms)), t) \<and>
       processed_emails t = processed_emails s + int (length ms) \<and>
       failed_emails t = failed_emails s \<and>
       mbox_records t = mbox_records s @ rs"
proof (induction ms rs arbitrary: c s rule: list_all2_induct)
  case Nil
  then show ?case by simp
next
  case (Cons m ms r rs)
  from process_message_ok [OF Cons.hyps(1), of s] obtain s1 where
    1: "process_message lib m s = (Inr (), s1)"
      "processed_emails s1 = processed_emails s + 1"
      "failed_emails s1 = failed_emails s" "mbox_records s1 = mbox_records s @ [r]"
    by blast
  from Cons.IH [of "c + 1" s1] obtain t where
    "messages_loop lib ms (c + 1) s1 = ((None, c + 1 + int (length ms)), t)"
    "processed_emails t = processed_emails s1 + int (length ms)"
    "failed_emails t = failed_emails s1" "mbox_records t = mbox_records s1 @ rs"
    by blast
  with 1 show ?case by simp
qed

lemma messages_loop_one_failure:
  assumes "list_all2 (converts_to lib) before rs1" and "fails_to_build lib bad"
    and "list_all2 (converts_to lib) after rs2"
  shows "\<exists>t. messages_loop lib (before @ bad # after) c s
               = ((None, c + int (length before) + int (length after)), t) \<and>
       processed_emails t = processed_emails s + int (length before) + int (length after) \<and>
       failed_emails t = failed_emails s + 1 \<and>
       mbox_records t = mbox_records s @ rs1 @ rs2"
  using assms(1)
proof (induction before rs1 arbitrary: c s rule: list_all2_induct)
  case Nil
  from process_message_fail [OF assms(2), of s] obtain e s1 where
    1: "process_message lib bad s = (Inl e, s1)" "is_Exception e"
      "processed_emails s1 = processed_emails s" "failed_emails s1 = failed_emails s"
      "mbox_records s1 = mbox_records s"
    by blast
  let ?s2 = "logger ERROR (FailedToProcessMessage c e) (s1\<lparr>failed_emails := failed_emails s1 + 1\<rparr>)"
  from messages_loop_ok [OF assms(3), of c ?s2] obtain t where
    "messages_loop lib after c ?s2 = ((None, c + int (length after)), t)"
    "processed_emails t = processed_emails ?s2 + int (length after)"
    "failed_emails t = failed_emails ?s2" "mbox_records t = mbox_records ?s2 @ rs2"
    by blast
  with 1 show ?case by simp
next
  case (Cons m ms r rs)
  from process_message_ok [OF Cons.hyps(1), of s] obtain s1 where
    1: "process_message lib m s = (Inr (), s1)"
      "processed_emails s1 = processed_emails s + 1"
      "failed_emails s1 = failed_emails s" "mbox_records s1 = mbox_records s @ [r]"
    by blast
  from Cons.IH [of "c + 1" s1] obtain t where
    "messages_loop lib (ms @ bad # after) (c + 1) s1
       = ((None, c + 1 + int (length ms) + int (length after)), t)"
    "processed_emails t = processed_emails s1 + int (length ms) + int (length after)"
    "failed_emails t = failed_emails s1 + 1" "mbox_records t = mbox_records s1 @ rs @ rs2"
    by blast
  with 1 show ?case by simp
qed

lemma filter_neq_upt:
  "k < n \<Longrightarrow> filter (\<lambda>i. i \<noteq> k) [0..<n] = [0..<k] @ [Suc k..<n]"
proof (induction n)
  case 0
  then show ?case by simp
next
  case (Suc n)
  show ?case
  proof (cases "k = n")
    case True
    then show ?thesis by (simp add: filter_id_conv)
  next
    case False
    with Suc show ?thesis by simp
  qed
qed

lemma extract_attachments_none:
  "number_of_attachments m = Inr 0 \<Longrightarrow> extract_attachments m s = (Inr [], s)"
  by (simp add: extract_attachments_def hasattr_def)

lemma set_sender_payload:
  "set_sender lib m sn se th msg s = (Inr msg', t) \<Longrightarrow> payload msg' = payload msg"
  unfolding set_sender_def
  apply (cases "truthy se")
   apply simp
   apply (elim bindM_cases)
      apply (auto simp: returnM_def add_header_def)
  done

lemma build_message_payload:
  assumes "build_message lib m fp s = (Inr msg, t)"
  shows "\<exists>bt bh atts s1 s2 s3.
           safe_get_attr ''plain_text_body'' (plain_text_body m) (Some []) s = (Inr bt, s1) \<and>
           safe_get_attr ''html_body'' (html_body m) (Some []) s1 = (Inr bh, s2) \<and>
           extract_attachments m s2 = (Inr atts, s3) \<and>
           payload msg = build_payload atts (or_str bt []) (or_str bh [])"
  using assms unfolding build_message_def
  apply (elim bindM_cases)
              apply simp_all
  apply (auto simp: returnM_def add_header_def dest!: set_sender_payload split: option.splits)
  done

lemma demo_message_folder:
  "resolve_folder demo_message s = (Inr (u ''Unknown''), s)"
  by (simp add: resolve_folder_def demo_message_def hasattr_def)

lemma demo_message_builds:
  "convert_pst_message_to_email demo_lib demo_message (u ''Unknown'') s = (Inr demo_record, s)"
  by code_simp

lemma match_literal_same_letters:
  "map to_lower q = map to_lower p \<Longrightarrow> match_literal p (q @ rest) = Some rest"
proof (induction p arbitrary: q)
  case Nil
  then show ?case by simp
next
  case (Cons c p)
  then obtain d q' where "q = d # q'" by (cases q) auto
  with Cons show ?case by simp
qed

lemma match_literal_line:
  "match_literal p l = None \<Longrightarrow> 10 \<notin> to_lower ` set p \<Longrightarrow>
     match_literal p (l @ 10 # rest) = None"
  by (induction p l rule: match_literal.induct) (auto simp: to_lower_def)

lemma from_pattern_line:
  assumes "match_literal (u ''From:'') l = None"
  shows "from_pattern (l @ 10 # rest) = None"
proof -
  have "10 \<notin> to_lower ` set (u ''From:'')"
    by (simp add: u_def to_lower_def)
  with assms have "match_literal (u ''From:'') (l @ 10 # rest) = None"
    by (rule match_literal_line)
  then show ?thesis by (simp add: from_pattern_def)
qed

lemma search_lines_skip_line:
  "10 \<notin> set l \<Longrightarrow> (b \<longrightarrow> p (l @ 10 # rest) = None) \<Longrightarrow>
     search_lines p b (l @ 10 # rest) = search_lines p True rest"
  by (induction l arbitrary: b) auto

lemma search_lines_skip_lines:
  "\<forall>l \<in> set ls. 10 \<notin> set l \<and> match_literal (u ''From:'') l = None \<Longrightarrow>
     search_lines from_pattern True (concat (map (\<lambda>l. l @ [10]) ls) @ rest)
       = search_lines from_pattern True rest"
proof (induction ls)
  case Nil
  then show ?case by simp
next
  case (Cons l ls)
  then have "search_lines from_pattern True (l @ 10 # (concat (map (\<lambda>l. l @ [10]) ls) @ rest))
               = search_lines from_pattern True (concat (map (\<lambda>l. l @ [10]) ls) @ rest)"
    by (intro search_lines_skip_line) (auto simp: from_pattern_line)
  with Cons show ?case by simp
qed

lemma from_pattern_jane:
  assumes "map to_lower label = u ''from:''"
  shows "from_pattern (label @ u '' Jane Doe <jane@example.com>'' @ rest)
           = Some (u ''Jane Doe'', u ''jane@example.com'')"
proof -
  have "map to_lower label = map to_lower (u ''From:'')"
    using assms by (simp add: u_def to_lower_def)
  then have "match_literal (u ''From:'') (label @ u '' Jane Doe <jane@example.com>'' @ rest)
               = Some (u '' Jane Doe <jane@example.com>'' @ rest)"
    by (rule match_literal_same_letters)
  then show ?thesis
    by (simp add: from_pattern_def u_def match_char_def py_isspace_def)
qed

subsection \<open>Attachment extractor\<close>

text \<open>
  C2, as stated: \<open>attachments_extracted\<close> increments if and only if the recovered byte
  length of the attachment is greater than 0. This fails: an attachment that reports the
  size 0 and yields no data is recorded with no data and still counted as extracted.
\<close>

theorem extract_attachments_empty_counted_counterexample:
  "fst (extract_attachments (with_attachments [empty_attachment]) (init_converter []))
     = Inr [\<lparr>filename = u ''attachment_0'', reported_size = 0, data = None\<rparr>] \<and>
   attachments_extracted
     (snd (extract_attachments (with_attachments [empty_attachment]) (init_converter []))) = 1"
  by code_simp

text \<open>
  C2, amended: when the attachment count can be read, \<open>attachments_found\<close> grows by the
  number of enumerated indices; \<open>attachments_extracted\<close> grows by one for every recorded
  attachment except those with a positive reported size and no recovered data; and
  \<open>attachment_bytes\<close> grows by the recovered length of every recorded attachment.
\<close>

theorem extract_attachments_counts:
  assumes "number_of_attachments m = Inr n"
    and "extract_attachments m s = (Inr atts, t)"
  shows "attachments_found t = attachments_found s + int (length [0..<nat n]) \<and>
     attachments_extracted t = attachments_extracted s + int (length (filter counted atts)) \<and>
     attachment_bytes t = attachment_bytes s + (\<Sum>a\<leftarrow>atts. actual_size_of (data a))"
proof -
  let ?s0 = "if n > 0 then (logger DEBUG (MessageHasAttachments n) s)
               \<lparr>attachments_found := attachments_found s + n\<rparr> else s"
  obtain eo atts' s1 where loop: "extract_loop m [0..<nat n] [] ?s0 = ((eo, atts'), s1)"
    by (cases "extract_loop m [0..<nat n] [] ?s0") auto
  from extract_loop_att [OF loop] have c: "att_counts ?s0 s1 atts'" by simp
  have "atts = atts' \<and> att_counts ?s0 t atts'"
    using assms loop c
    by (auto simp: extract_attachments_def hasattr_def extract_failed_def
        split: option.splits if_splits)
  then show ?thesis
    by (auto simp: att_counts_def frame_def)
qed

lemma three_attachments_extracted:
  "fst (extract_attachments
          (with_attachments [demo_attachment, lost_attachment, empty_attachment])
          (init_converter []))
     = Inr [\<lparr>filename = u ''a.bin'', reported_size = 3, data = Some [1, 2, 3]\<rparr>,
            \<lparr>filename = u ''b.bin'', reported_size = 5, data = None\<rparr>,
            \<lparr>filename = u ''attachment_2'', reported_size = 0, data = None\<rparr>]"
  by code_simp

theorem extract_attachments_counts_witness:
  "attachments_found
     (snd (extract_attachments
             (with_attachments [demo_attachment, lost_attachment, empty_attachment])
             (init_converter []))) = 3 \<and>
   attachments_extracted
     (snd (extract_attachments
             (with_attachments [demo_attachment, lost_attachment, empty_attachment])
             (init_converter []))) = 2 \<and>
   attachment_bytes
     (snd (extract_attachments
             (with_attachments [demo_attachment, lost_attachment, empty_attachment])
             (init_converter []))) = 3"
proof -
  let ?m = "with_attachments [demo_attachment, lost_attachment, empty_attachment]"
  have n: "number_of_attachments ?m = Inr 3"
    by (simp add: with_attachments_def)
  have r: "extract_attachments ?m (init_converter [])
     = (Inr [\<lparr>filename = u ''a.bin'', reported_size = 3, data = Some [1, 2, 3]\<rparr>,
             \<lparr>filename = u ''b.bin'', reported_size = 5, data = None\<rparr>,
             \<lparr>filename = u ''attachment_2'', reported_size = 0, data = None\<rparr>],
        snd (extract_attachments ?m (init_converter [])))"
    using three_attachments_extracted by (simp add: prod_eq_iff)
  show ?thesis
    using extract_attachments_counts [OF n r]
    by (simp add: counted_def actual_size_of_def init_converter_def)
qed

subsection \<open>Safe field accessor\<close>

text \<open>
  C4, as stated: for every record, field name and default value the safe field accessor
  never raises or propagates an exception. This fails: the accessor catches
  \<open>SystemError\<close>, \<open>ValueError\<close> (with its subclasses) and \<open>OverflowError\<close> only, and a
  read that ends in \<open>OSError\<close> propagates.
\<close>

theorem safe_get_attr_propagates_counterexample:
  "fst (safe_get_attr ''subject'' (Inl OSError :: ustr option attr) (Some [])
          (init_converter [])) = Inl OSError"
  by (simp add: safe_get_attr_def getattr_default_def)

text \<open>
  C4, amended: a read that succeeds returns normally; a read that fails with one of the
  caught classes, or because the attribute is missing, returns the supplied default; a
  read that fails with any other exception propagates it.
\<close>

theorem safe_get_attr_caught_errors:
  "(is_field_error e \<or> e = AttributeError \<longrightarrow>
      fst (safe_get_attr attr (Inl e) dflt s) = Inr dflt) \<and>
   (\<not> is_field_error e \<and> e \<noteq> AttributeError \<longrightarrow>
      fst (safe_get_attr attr (Inl e) dflt s) = Inl e) \<and>
   fst (safe_get_attr attr (Inr v) dflt s) = Inr (if v \<noteq> None then v else dflt)"
  by (simp add: safe_get_attr_def getattr_default_def)

theorem safe_get_attr_caught_errors_witness:
  "is_field_error UnicodeDecodeError \<and>
   fst (safe_get_attr ''subject'' (Inl UnicodeDecodeError) (Some (u ''x'')) (init_converter []))
     = Inr (Some (u ''x'')) \<and>
   \<not> is_field_error OSError \<and> OSError \<noteq> AttributeError \<and>
   fst (safe_get_attr ''subject'' (Inl OSError) (Some (u ''x'')) (init_converter []))
     = Inl OSError"
  using
    safe_get_attr_caught_errors
      [of UnicodeDecodeError "''subject''" "Some (u ''x'')" "init_converter []" None]
    safe_get_attr_caught_errors
      [of OSError "''subject''" "Some (u ''x'')" "init_converter []" None]
  by simp

text \<open>
  C10. When the attribute read succeeds and yields \<open>None\<close>, the safe field accessor
  returns the supplied default, exactly as it does for an attribute that does not exist.
\<close>

theorem safe_get_attr_none_is_default:
  "fst (safe_get_attr attr (Inr None) dflt s) = Inr dflt \<and>
   safe_get_attr attr (Inr None) dflt s = safe_get_attr attr (Inl AttributeError) dflt s"
  by (simp add: safe_get_attr_def getattr_default_def)

subsection \<open>Address formatter\<close>





subsection \<open>Header recovery\<close>

text \<open>
  C6, as stated: whenever the sender address is absent and the transport headers contain
  the line \<^verbatim>\<open>From: Jane Doe <jane@example.com>\<close>, the recovered sender is Jane Doe. This
  fails when an earlier line of the headers matches the pattern: the search returns the
  first match.
\<close>

theorem recover_sender_earlier_from_line_counterexample:
  "recover_sender (Some []) (Some [])
     (Some (u ''From: A <a@b>'' @ [10] @ u ''From: Jane Doe <jane@example.com>''))
   = (Some (u ''A''), Some (u ''a@b''))"
  by code_simp

text \<open>
  C6, amended: when the sender address is absent and the line
  \<^verbatim>\<open>From: Jane Doe <jane@example.com>\<close>, with its label in any letter case, is the first
  line of the transport headers that begins with \<^verbatim>\<open>From:\<close>, the recovered sender name
  is \<^verbatim>\<open>Jane Doe\<close> and the recovered address is \<^verbatim>\<open>jane@example.com\<close>, whatever follows
  the line.
\<close>

theorem recover_sender_first_from_line:
  assumes "\<not> truthy sender_email" and "map to_lower label = u ''from:''"
    and "\<forall>l \<in> set earlier. 10 \<notin> set l \<and> match_literal (u ''From:'') l = None"
  shows "recover_sender sender_name' sender_email
           (Some (concat (map (\<lambda>l. l @ [10]) earlier) @
                  label @ u '' Jane Doe <jane@example.com>'' @ rest))
         = (Some (u ''Jane Doe''), Some (u ''jane@example.com''))"
proof -
  let ?line = "label @ u '' Jane Doe <jane@example.com>'' @ rest"
  let ?th = "concat (map (\<lambda>l. l @ [10]) earlier) @ ?line"
  have ne: "?th \<noteq> []" by (simp add: u_def)
  obtain c cs where line: "?line = c # cs"
    by (cases ?line) (auto simp: u_def)
  have "re_search from_pattern ?th = search_lines from_pattern True ?line"
    unfolding re_search_def using assms(3) by (rule search_lines_skip_lines)
  also have "\<dots> = Some (u ''Jane Doe'', u ''jane@example.com'')"
    using from_pattern_jane [OF assms(2), of rest] line by simp
  finally have "re_search from_pattern ?th = Some (u ''Jane Doe'', u ''jane@example.com'')" .
  moreover have "strip_chars [34] (u ''Jane Doe'') = u ''Jane Doe''"
    by (simp add: strip_chars_def strip_with_def u_def)
  ultimately show ?thesis
    using assms(1) ne
    by (simp add: recover_sender_def truthy_def or_str_def)
qed

theorem recover_sender_first_from_line_witness:
  "recover_sender (Some []) None
     (Some (u ''Received: by mx'' @ [13, 10] @ u ''Subject: Hi'' @ [10] @
            u ''FROM: Jane Doe <jane@example.com>'' @ [13, 10] @ u ''To: x@y''))
   = (Some (u ''Jane Doe''), Some (u ''jane@example.com''))"
proof -
  have 1: "\<not> truthy (None :: ustr option)" by (simp add: truthy_def)
  have 2: "map to_lower (u ''FROM:'') = u ''from:''" by (simp add: u_def to_lower_def)
  have 3: "\<forall>l \<in> set [u ''Received: by mx'' @ [13], u ''Subject: Hi''].
             10 \<notin> set l \<and> match_literal (u ''From:'') l = None"
    by (simp add: u_def to_lower_def)
  from recover_sender_first_from_line [OF 1 2 3, of "Some []" "[13, 10] @ u ''To: x@y''"]
  show ?thesis by (simp add: u_def)
qed

subsection \<open>Record builder\<close>

text \<open>
  C1. For a message with no attachments whose plain-text body and HTML body are both read
  and non-empty, the record that the builder returns is a \<open>multipart/alternative\<close> with
  exactly two parts, the plain text first and the HTML second.
\<close>

theorem both_bodies_no_attachments_alternative:
  assumes "plain_text_body m = Inr (Some body_text)" and "body_text \<noteq> []"
    and "html_body m = Inr (Some body_html)" and "body_html \<noteq> []"
    and "number_of_attachments m = Inr 0"
    and "convert_pst_message_to_email lib m folder_path s = (Inr msg, t)"
  shows "payload msg =
           MIMEMultipart alternative [MIMEText body_text plain, MIMEText body_html html]"
proof -
  from assms(6) have "build_message lib m folder_path s = (Inr msg, t)"
    by (auto simp: convert_pst_message_to_email_def split: prod.splits sum.splits if_splits)
  from build_message_payload [OF this] obtain bt bh atts s1 s2 s3 where
    1: "safe_get_attr ''plain_text_body'' (plain_text_body m) (Some []) s = (Inr bt, s1)" and
    2: "safe_get_attr ''html_body'' (html_body m) (Some []) s1 = (Inr bh, s2)" and
    3: "extract_attachments m s2 = (Inr atts, s3)" and
    4: "payload msg = build_payload atts (or_str bt []) (or_str bh [])"
    by blast
  from 1 assms(1) have "bt = Some body_text"
    by (simp add: safe_get_attr_def getattr_default_def)
  moreover from 2 assms(3) have "bh = Some body_html"
    by (simp add: safe_get_attr_def getattr_default_def)
  moreover from 3 assms(5) have "atts = []"
    by (simp add: extract_attachments_none)
  ultimately show ?thesis
    using 4 assms(2,4) by (simp add: build_payload_def or_str_def)
qed

theorem both_bodies_no_attachments_alternative_witness:
  "convert_pst_message_to_email demo_lib demo_message (u ''Unknown'') (init_converter [])
     = (Inr demo_record, init_converter []) \<and>
   payload demo_record =
     MIMEMultipart alternative [MIMEText (u ''hi'') plain, MIMEText (u ''<p>hi</p>'') html]"
proof -
  have 1: "plain_text_body demo_message = Inr (Some (u ''hi''))"
    and 2: "u ''hi'' \<noteq> []"
    and 3: "html_body demo_message = Inr (Some (u ''<p>hi</p>''))"
    and 4: "u ''<p>hi</p>'' \<noteq> []"
    and 5: "number_of_attachments demo_message = Inr 0"
    by (simp_all add: demo_message_def u_def)
  from both_bodies_no_attachments_alternative [OF 1 2 3 4 5 demo_message_builds]
    demo_message_builds
  show ?thesis by simp
qed

subsection \<open>Conversion driver\<close>





text \<open>
  C3. In a batch of \<open>N\<close> messages of which the one at position \<open>k\<close> makes the record
  builder raise an \<open>Exception\<close> and every other one converts and is accepted by the
  mailbox, \<open>process_messages\<close> returns normally, \<open>processed_emails\<close> has grown by
  \<open>N - 1\<close> and \<open>failed_emails\<close> by 1 (both start at 0), and the mailbox has received
  the records of the other messages in their original order.
\<close>

theorem process_messages_one_failure:
  assumes "k < length (messages a)" and "messages_raises a = None"
    and "\<forall>i < length (messages a). i \<noteq> k \<longrightarrow> converts_to lib (messages a ! i) (rs i)"
    and "fails_to_build lib (messages a ! k)"
  shows "\<exists>t. process_messages lib a s = (Inr (), t) \<and>
     processed_emails t = processed_emails s + (int (length (messages a)) - 1) \<and>
     failed_emails t = failed_emails s + 1 \<and>
     mbox_records t =
       mbox_records s @ map rs (filter (\<lambda>i. i \<noteq> k) [0..<length (messages a)])"
proof -
  let ?ms = "messages a"
  let ?n = "length ?ms"
  have join: "take k ?ms @ (?ms ! k) # drop (Suc k) ?ms = ?ms"
    using assms(1) by (simp add: id_take_nth_drop [symmetric])
  have b: "list_all2 (converts_to lib) (take k ?ms) (map rs [0..<k])"
    using assms(1,3) by (auto simp: list_all2_conv_all_nth)
  have c: "list_all2 (converts_to lib) (drop (Suc k) ?ms) (map rs [Suc k..<?n])"
    using assms(1,3) by (auto simp: list_all2_conv_all_nth)
  from messages_loop_one_failure [OF b assms(4) c, of 0 "logger INFO ProcessingMessages s"]
  obtain t where
    l: "messages_loop lib (take k ?ms @ (?ms ! k) # drop (Suc k) ?ms) 0
          (logger INFO ProcessingMessages s)
        = ((None, 0 + int (length (take k ?ms)) + int (length (drop (Suc k) ?ms))), t)"
    and p: "processed_emails t = processed_emails (logger INFO ProcessingMessages s)
        + int (length (take k ?ms)) + int (length (drop (Suc k) ?ms))"
    and f: "failed_emails t = failed_emails (logger INFO ProcessingMessages s) + 1"
    and r: "mbox_records t = mbox_records (logger INFO ProcessingMessages s)
        @ map rs [0..<k] @ map rs [Suc k..<?n]"
    by blast
  from l have l': "messages_loop lib ?ms 0 (logger INFO ProcessingMessages s)
        = ((None, int (length (take k ?ms)) + int (length (drop (Suc k) ?ms))), t)"
    by (simp add: join)
  have len: "int (length (take k ?ms)) + int (length (drop (Suc k) ?ms)) = int ?n - 1"
    using assms(1) by simp
  show ?thesis
    using l' p f r len assms(1,2)
    by (simp add: process_messages_def filter_neq_upt)
qed

lemma demo_message_converts: "converts_to demo_lib demo_message demo_record"
  unfolding converts_to_def
  using demo_message_folder demo_message_builds
  by (simp add: demo_lib_def)

lemma failing_message_folder:
  "resolve_folder failing_message s = (Inr (u ''Unknown''), s)"
  by (simp add: resolve_folder_def failing_message_def demo_message_def hasattr_def)

lemma failing_message_raises:
  "convert_pst_message_to_email demo_lib failing_message (u ''Unknown'') s
     = (Inl OSError, logger ERROR (FailedToConvertMessage OSError) s)"
  by code_simp

lemma failing_message_fails: "fails_to_build demo_lib failing_message"
  unfolding fails_to_build_def
  using failing_message_folder failing_message_raises
  by simp

theorem process_messages_one_failure_witness:
  "\<exists>t. process_messages demo_lib
          \<lparr>messages = [demo_message, failing_message, demo_message], messages_raises = None\<rparr>
          (init_converter []) = (Inr (), t) \<and>
       processed_emails t = 2 \<and> failed_emails t = 1 \<and>
       mbox_records t = [demo_record, demo_record]"
proof -
  let ?a = "\<lparr>messages = [demo_message, failing_message, demo_message],
              messages_raises = None\<rparr>"
  have k: "1 < length (messages ?a)" by simp
  have n: "messages_raises ?a = None" by simp
  have ok: "\<forall>i < length (messages ?a). i \<noteq> 1 \<longrightarrow>
              converts_to demo_lib (messages ?a ! i) ((\<lambda>i. demo_record) i)"
    using demo_message_converts by (auto simp: nth_Cons' less_Suc_eq numeral_3_eq_3)
  have bad: "fails_to_build demo_lib (messages ?a ! 1)"
    using failing_message_fails by simp
  from process_messages_one_failure [OF k n ok bad, of "init_converter []"]
  show ?thesis
    by (simp add: init_converter_def upt_rec)
qed





text \<open>
  C9 says that a failure is logged with the 0-based position of the message in the
  iteration order. The driver logs its counter \<open>message_count\<close>, which counts the
  successful messages only: of two messages that both fail, the second one, at position 1,
  is logged with the index 0 again.
\<close>

theorem second_failure_logged_with_index_0:
  "trace (snd (process_messages demo_lib
                 \<lparr>messages = [failing_message, failing_message], messages_raises = None\<rparr>
                 (init_converter [])))
     = [Log INFO ProcessingMessages,
        Log ERROR (FailedToConvertMessage OSError),
        Log ERROR (FailedToProcessMessage 0 OSError),
        Log ERROR (FailedToConvertMessage OSError),
        Log ERROR (FailedToProcessMessage 0 OSError),
        Log INFO (FinishedProcessing 0)]"
  by code_simp

end
